theory Spec2Isabelle
  imports Complex_Main "HOL-Library.Sublist" "HOL-Library.Multiset"
begin

text \<open>
  The front end of the token list: \<open>getTokenData\<close>, which reads the registry and
  enriches every entry with the viewer's balance and the token's metadata; the balance
  paragraph of the \<open>Token\<close> component; and the submit handler of \<open>App\<close> with its
  notification and the timers that clear it. Remote calls are functions from their
  arguments to their settlement, and asynchronous code is followed from one settlement
  to the next.
\<close>

section \<open>Values of the JavaScript runtime\<close>

text \<open>
  The TypeScript type \<open>number\<close> is read as a real number: the IEEE rounding of the
  division in \<open>Token\<close> is not modelled, and \<open>NaN\<close> is left out. What the code
  tests of a number is only whether it is zero (truthiness).
\<close>

type_synonym number = real

text \<open>
  The values \<open>JSON.parse\<close> can return. An object is its list of own properties, looked
  up with \<open>map_of\<close>. The JavaScript value \<open>undefined\<close> is \<open>None\<close> of
  \<open>json option\<close>.
\<close>

datatype json =
    JNull
  | JBool bool
  | JNumber number
  | JString string
  | JArray "json list"
  | JObject "(string \<times> json) list"

text \<open>A rejection of a remote call: an \<open>Error\<close> object with its \<open>message\<close>.\<close>

datatype js_error = JsError (message: string)

text \<open>The exceptions raised inside the handler's own \<open>try\<close> block.\<close>

datatype handle_error = SyntaxError | TypeError

text \<open>Truthiness, as \<open>&&\<close>, \<open>? :\<close> and \<open>if\<close> test it.\<close>

fun truthy :: "json \<Rightarrow> bool" where
  "truthy JNull = False"
| "truthy (JBool b) = b"
| "truthy (JNumber n) = (n \<noteq> 0)"
| "truthy (JString s) = (s \<noteq> [])"
| "truthy (JArray xs) = True"
| "truthy (JObject kvs) = True"

text \<open>
  Optional chaining \<open>x?.k\<close> for a key that no prototype defines (\<open>kind\<close>,
  \<open>ExecutionError\<close>): \<open>undefined\<close> on \<open>undefined\<close> and \<open>null\<close>, the own
  property of an object, \<open>undefined\<close> on every primitive and on arrays.
\<close>

fun optional_member :: "json option \<Rightarrow> string \<Rightarrow> json option" where
  "optional_member None k = None"
| "optional_member (Some (JObject kvs)) k = map_of kvs k"
| "optional_member (Some v) k = None"

text \<open>
  The method call \<open>v.includes(pat)\<close> on a truthy value: \<open>String.prototype.includes\<close>
  is the substring test, \<open>Array.prototype.includes\<close> looks for an element equal to the
  argument, and every other value has no such method, so the call raises a
  \<open>TypeError\<close>.
\<close>

fun includes_method :: "json \<Rightarrow> string \<Rightarrow> handle_error + bool" where
  "includes_method (JString s) pat = Inr (sublist pat s)"
| "includes_method (JArray xs) pat = Inr (List.member xs (JString pat))"
| "includes_method v pat = Inl TypeError"

section \<open>Token data (Token.tsx, App.tsx)\<close>

record FungibleTokenMetadata =
  spec :: string
  name :: string
  symbol :: string
  icon :: "string option"
  reference :: "string option"
  reference_hash :: "string option"
  decimals :: nat

record TokenData =
  accountId :: string
  balance :: "number option"
  metadata :: FungibleTokenMetadata

text \<open>
  What \<open>Token\<close> puts into the balance paragraph:
  \<^verbatim>\<open>{balance ? (balance ?? 0) / 10 ** metadata.decimals : "-"}\<close>
\<close>

datatype rendered = Number number | Text string

definition nullish_coalesce :: "number option \<Rightarrow> number \<Rightarrow> number" where
  "nullish_coalesce v d = (case v of None \<Rightarrow> d | Some x \<Rightarrow> x)"

definition truthy_number :: "number option \<Rightarrow> bool" where
  "truthy_number v = (case v of None \<Rightarrow> False | Some x \<Rightarrow> x \<noteq> 0)"

definition Token_balance :: "number option \<Rightarrow> FungibleTokenMetadata \<Rightarrow> rendered" where
  "Token_balance bal md =
     (if truthy_number bal then Number (nullish_coalesce bal 0 / 10 ^ decimals md)
      else Text ''-'')"

section \<open>The remote collaborators\<close>

text \<open>
  The contract and the wallet connection live on \<open>window\<close>; here they are a record of
  functions from the arguments of a call to its settlement (\<open>Inl\<close> a rejection). The
  untyped result of \<open>viewFunction\<close> is read at the type its call site declares, one
  field per method name the code uses.
\<close>

record remote =
  get_tokens :: "nat \<Rightarrow> nat \<Rightarrow> js_error + string list"
  account :: "string \<Rightarrow> js_error + unit"
  view_ft_balance_of :: "string \<Rightarrow> string option \<Rightarrow> js_error + number option"
  view_ft_metadata :: "string \<Rightarrow> js_error + FungibleTokenMetadata"

datatype args = NoArgs | Account_id "string option"

datatype call =
    Get_tokens nat nat
  | Add_token string
  | Account string
  | ViewFunction string string args

datatype 'a promise = Pending | Rejected js_error | Resolved 'a

text \<open>Truthiness of a \<open>string | undefined\<close>: the empty string is falsy as well.\<close>

definition truthy_string :: "string option \<Rightarrow> bool" where
  "truthy_string v = (case v of None \<Rightarrow> False | Some s \<Rightarrow> s \<noteq> [])"

section \<open>getTokenData (App.tsx)\<close>

text \<open>
  The async arrow function handed to \<open>pMap\<close>. Each \<open>await\<close> of a rejected promise
  throws, which ends the function: the calls issued so far are returned with the
  rejection. \<open>window_accountId\<close> is the global \<open>window.accountId\<close>.
\<close>

definition mapper ::
  "remote \<Rightarrow> string option \<Rightarrow> string option \<Rightarrow> string \<Rightarrow> call list \<times> (js_error + TokenData)" where
  "mapper r accountId_arg window_accountId tokenAccountId =
     (case account r tokenAccountId of
        Inl e \<Rightarrow> ([Account tokenAccountId], Inl e)
      | Inr tokenAccount \<Rightarrow>
          (let (cs, bal) =
                 (if truthy_string accountId_arg
                  then ([ViewFunction tokenAccountId ''ft_balance_of'' (Account_id window_accountId)],
                        view_ft_balance_of r tokenAccountId window_accountId)
                  else ([], Inr None))
           in case bal of
                Inl e \<Rightarrow> (Account tokenAccountId # cs, Inl e)
              | Inr b \<Rightarrow>
                  (case view_ft_metadata r tokenAccountId of
                     Inl e \<Rightarrow>
                       (Account tokenAccountId # cs @ [ViewFunction tokenAccountId ''ft_metadata'' NoArgs],
                        Inl e)
                   | Inr md \<Rightarrow>
                       (Account tokenAccountId # cs @ [ViewFunction tokenAccountId ''ft_metadata'' NoArgs],
                        Inr \<lparr>accountId = tokenAccountId, balance = b, metadata = md\<rparr>))))"

text \<open>
  Modelled from the spec: \<open>pMap\<close> is the npm package p-map, which App.tsx imports and
  the sources do not contain; the spec asks that results are correlated back to input
  positions and that a rejection is propagated. It is called with its default options
  (unbounded concurrency, stop on the first error). It starts the mapper on every element, and as
  each of the mapper's promises settles it either stores the value at the element's own
  index (\<^verbatim>\<open>result[index] = value\<close>) or rejects the whole call; it resolves with the
  array once every mapper has settled. \<open>completion\<close> is the order in which the
  mappers settle, as a list of input positions, and \<open>slots\<close> the array being filled.
\<close>

fun pMap_settle ::
  "nat list \<Rightarrow> (js_error + 'b) list \<Rightarrow> 'b option list \<Rightarrow> 'b list promise" where
  "pMap_settle [] outcomes slots =
     (if list_all (\<lambda>v. v \<noteq> None) slots then Resolved (map the slots) else Pending)"
| "pMap_settle (i # completion) outcomes slots =
     (if i < length outcomes
      then (case outcomes ! i of
              Inl e \<Rightarrow> Rejected e
            | Inr v \<Rightarrow> pMap_settle completion outcomes (slots[i := Some v]))
      else pMap_settle completion outcomes slots)"

definition pMap :: "nat list \<Rightarrow> (js_error + 'b) list \<Rightarrow> 'b list promise" where
  "pMap completion outcomes =
     pMap_settle completion outcomes (replicate (length outcomes) None)"

text \<open>
  The result is the remote calls the function issues (those of one element in program
  order, element after element) and the state of the promise it returned once the
  mappers listed in \<open>completion\<close> have settled. \<open>pMap\<close> cannot cancel a mapper it
  has started, so every mapper runs to its own end also after a rejection elsewhere.
\<close>

definition getTokenData ::
  "remote \<Rightarrow> nat list \<Rightarrow> string option \<Rightarrow> string option \<Rightarrow> call list \<times> TokenData list promise" where
  "getTokenData r completion accountId_arg window_accountId =
     (case get_tokens r 0 100 of
        Inl e \<Rightarrow> ([Get_tokens 0 100], Rejected e)
      | Inr tokenAccountIds \<Rightarrow>
          (let runs = map (mapper r accountId_arg window_accountId) tokenAccountIds
           in (Get_tokens 0 100 # concat (map fst runs), pMap completion (map snd runs))))"

section \<open>The App component (App.tsx)\<close>

text \<open>
  The React state of \<open>App\<close> (the five \<open>useState\<close> cells) together with the parts of
  the browser the submit handler touches: the form's fieldset and input, the global
  viewer identity, the clock in milliseconds with the deadlines of the pending
  \<open>setTimeout\<close> callbacks, the alerts shown, the remote calls issued and the arguments
  of the \<open>getTokenData\<close> invocations started.
\<close>

record state =
  tokens :: "TokenData list"
  buttonDisabled :: bool
  showNotification :: bool
  isFailureNotification :: bool
  notificationMessage :: string
  fieldset_disabled :: bool
  token_value :: string
  window_accountId :: "string option"
  clock :: nat
  timers :: "nat list"
  alerts :: "string list"
  calls :: "call list"
  syncs :: "string option list"

definition initial :: "string option \<Rightarrow> state" where
  "initial viewer =
     \<lparr>tokens = [], buttonDisabled = True, showNotification = False,
      isFailureNotification = False, notificationMessage = [],
      fieldset_disabled = False, token_value = [], window_accountId = viewer,
      clock = 0, timers = [], alerts = [], calls = [], syncs = [viewer]\<rparr>"

text \<open>The callback both \<open>setTimeout\<close> calls pass.\<close>

definition clear_callback :: "state \<Rightarrow> state" where
  "clear_callback s =
     s\<lparr>notificationMessage := [], isFailureNotification := False, showNotification := False\<rparr>"

text \<open>\<^verbatim>\<open>setTimeout(() => {...}, 11000)\<close>: the handle it returns is dropped.\<close>

definition setTimeout_clear :: "state \<Rightarrow> state" where
  "setTimeout_clear s = s\<lparr>timers := timers s @ [clock s + 11000]\<rparr>"

text \<open>Time passes until \<open>t\<close>: every pending callback that is due runs, in order.\<close>

definition advance :: "nat \<Rightarrow> state \<Rightarrow> state" where
  "advance t s =
     (fold (\<lambda>d. clear_callback) (filter (\<lambda>d. d \<le> t) (timers s)) s)
       \<lparr>clock := max (clock s) t, timers := filter (\<lambda>d. \<not> d \<le> t) (timers s)\<rparr>"

text \<open>The input's \<open>onChange\<close>: the DOM holds the value, React the button's flag.\<close>

definition onChange :: "string \<Rightarrow> state \<Rightarrow> state" where
  "onChange v s = s\<lparr>token_value := v, buttonDisabled := (length v = 0)\<rparr>"

definition isNotTokenAccount :: "json \<Rightarrow> handle_error + bool" where
  "isNotTokenAccount jsonError =
     (if \<not> truthy jsonError then Inr False
      else case optional_member (optional_member (Some jsonError) ''kind'') ''ExecutionError'' of
             None \<Rightarrow> Inr False
           | Some v \<Rightarrow>
               if \<not> truthy v then Inr False
               else includes_method v ''Unable to get result of token account verification'')"

definition alert_text :: string where
  "alert_text =
     ''Something went wrong! '' @ ''Maybe you need to sign out and back in? '' @
     ''Check your browser console for more info.''"

text \<open>The handler up to its first \<open>await\<close>: the form is locked and the call issued.\<close>

definition onSubmit_call :: "state \<Rightarrow> state" where
  "onSubmit_call s =
     s\<lparr>fieldset_disabled := True, calls := calls s @ [Add_token (token_value s)]\<rparr>"

text \<open>
  The \<open>catch (e)\<close> block. \<open>JSON_parse\<close> is the runtime's \<open>JSON.parse\<close> (\<open>Inl\<close>
  when it throws). The result says whether \<open>e\<close> is thrown again.
\<close>

definition catch_block ::
  "(string \<Rightarrow> handle_error + json) \<Rightarrow> js_error \<Rightarrow> state \<Rightarrow> js_error option \<times> state" where
  "catch_block JSON_parse e s =
     (case JSON_parse (message e) of
        Inl handleError \<Rightarrow> (Some e, s\<lparr>alerts := alerts s @ [alert_text]\<rparr>)
      | Inr jsonError \<Rightarrow>
          (case isNotTokenAccount jsonError of
             Inl handleError \<Rightarrow> (Some e, s\<lparr>alerts := alerts s @ [alert_text]\<rparr>)
           | Inr True \<Rightarrow>
               (None,
                setTimeout_clear
                  (s\<lparr>notificationMessage :=
                       ''The provided account ID does not contain a fungible token contract'',
                     isFailureNotification := True,
                     showNotification := True\<rparr>))
           | Inr False \<Rightarrow> (None, s)))"

definition finally_block :: "state \<Rightarrow> state" where
  "finally_block s =
     s\<lparr>fieldset_disabled := False, syncs := syncs s @ [window_accountId s]\<rparr>"

text \<open>
  The handler from the settlement of \<open>add_token\<close> on. The result is the error the
  handler's promise rejects with, if any, and the state it leaves.
\<close>

definition onSubmit_settle ::
  "(string \<Rightarrow> handle_error + json) \<Rightarrow> js_error + bool \<Rightarrow> state \<Rightarrow> js_error option \<times> state" where
  "onSubmit_settle JSON_parse outcome s =
     (case outcome of
        Inr added \<Rightarrow>
          (None,
           finally_block
             (setTimeout_clear
                (s\<lparr>notificationMessage := ''Added '' @ token_value s @ '' to the token list'',
                   showNotification := True\<rparr>)))
      | Inl e \<Rightarrow>
          (case catch_block JSON_parse e s of
             (thrown, s') \<Rightarrow> (thrown, finally_block s')))"

definition onSubmit ::
  "(string \<Rightarrow> handle_error + json) \<Rightarrow> js_error + bool \<Rightarrow> state \<Rightarrow> js_error option \<times> state" where
  "onSubmit JSON_parse outcome s = onSubmit_settle JSON_parse outcome (onSubmit_call s)"

section \<open>Sample data for the closed instances\<close>

text \<open>
  A registry of two tokens whose lookups all succeed, the same registry with a rejecting
  balance lookup, and the messages of two rejections of \<open>add_token\<close> with the values
  \<open>JSON.parse\<close> returns for them.
\<close>

definition sample_metadata :: FungibleTokenMetadata where
  "sample_metadata =
     \<lparr>spec = ''ft-1.0.0'', name = ''Sample'', symbol = ''SMP'', icon = None,
      reference = None, reference_hash = None, decimals = 6\<rparr>"

definition sample_remote :: remote where
  "sample_remote =
     \<lparr>get_tokens = (\<lambda>from_index limit. Inr [''a.test'', ''b.test'']),
      account = (\<lambda>tokenAccountId. Inr ()),
      view_ft_balance_of = (\<lambda>tokenAccountId account_id. Inr (Some 5000000)),
      view_ft_metadata = (\<lambda>tokenAccountId. Inr sample_metadata)\<rparr>"

definition rejecting_remote :: remote where
  "rejecting_remote =
     sample_remote\<lparr>view_ft_balance_of := (\<lambda>tokenAccountId account_id. Inl (JsError ''boom''))\<rparr>"

definition not_a_token_message :: string where
  \<open>not_a_token_message =
     ''{"kind":{"ExecutionError":"Smart contract panicked: Unable to get result of token account verification"}}''\<close>

definition not_a_token_json :: json where
  "not_a_token_json =
     JObject [(''kind'', JObject [(''ExecutionError'',
        JString ''Smart contract panicked: Unable to get result of token account verification'')])]"

definition other_panic_message :: string where
  \<open>other_panic_message =
     ''{"kind":{"ExecutionError":"Smart contract panicked: Token already exists"}}''\<close>

definition other_panic_json :: json where
  "other_panic_json =
     JObject [(''kind'', JObject [(''ExecutionError'',
        JString ''Smart contract panicked: Token already exists'')])]"

text \<open>
  \<open>JSON.parse\<close> on the two messages above, the only ones parsed below; any other
  argument stands for a text that is not JSON.
\<close>

definition sample_JSON_parse :: "string \<Rightarrow> handle_error + json" where
  "sample_JSON_parse m =
     (if m = not_a_token_message then Inr not_a_token_json
      else if m = other_panic_message then Inr other_panic_json
      else Inl SyntaxError)"

text \<open>
  Two runs of the application. In \<open>first_shown\<close> nobody is signed in, \<open>a.test\<close> was
  added at time 0, and 5000 ms later the input holds \<open>b.test\<close>. In \<open>failure_shown\<close>
  \<open>alice.test\<close> is signed in, the registry refused \<open>nope.test\<close> at time 0 as not being
  a token, and 3000 ms later the input holds \<open>usdc.test\<close>.
\<close>

definition first_shown :: state where
  "first_shown =
     onChange ''b.test''
       (advance 5000 (snd (onSubmit sample_JSON_parse (Inr True) (onChange ''a.test'' (initial None)))))"

definition failure_shown :: state where
  "failure_shown =
     onChange ''usdc.test''
       (advance 3000
          (snd (onSubmit sample_JSON_parse (Inl (JsError not_a_token_message))
                  (onChange ''nope.test'' (initial (Some ''alice.test''))))))"

section \<open>Settling \<open>pMap\<close>\<close>

lemma pMap_settle_Resolved:
  assumes "pMap_settle completion outcomes slots = Resolved rs"
    and "length slots = length outcomes"
    and "\<And>i v. i < length slots \<Longrightarrow> slots ! i = Some v \<Longrightarrow> outcomes ! i = Inr v"
  shows "outcomes = map Inr rs"
  using assms
proof (induction completion outcomes slots rule: pMap_settle.induct)
  case (1 outcomes slots)
  from "1.prems"(1) have filled: "list_all (\<lambda>v. v \<noteq> None) slots" and rs: "rs = map the slots"
    by (auto split: if_splits)
  show ?case
  proof (rule nth_equalityI)
    show "length outcomes = length (map Inr rs)" using rs "1.prems"(2) by simp
  next
    fix i assume i: "i < length outcomes"
    then have "slots ! i \<noteq> None" using filled "1.prems"(2) by (simp add: list_all_length)
    then obtain v where v: "slots ! i = Some v" by auto
    then have "outcomes ! i = Inr v" using "1.prems"(3) i "1.prems"(2) by simp
    then show "outcomes ! i = map Inr rs ! i" using rs v i "1.prems"(2) by simp
  qed
next
  case (2 i completion outcomes slots)
  show ?case
  proof (cases "i < length outcomes")
    case False
    then show ?thesis using 2 by simp
  next
    case True
    then obtain v where v: "outcomes ! i = Inr v"
      using "2.prems"(1) by (cases "outcomes ! i") auto
    have "pMap_settle completion outcomes (slots[i := Some v]) = Resolved rs"
      using "2.prems"(1) True v by simp
    moreover have "length (slots[i := Some v]) = length outcomes" using "2.prems"(2) by simp
    moreover have "\<And>j w. j < length (slots[i := Some v]) \<Longrightarrow> (slots[i := Some v]) ! j = Some w \<Longrightarrow> outcomes ! j = Inr w"
    proof -
      fix j w assume j: "j < length (slots[i := Some v])" and w: "(slots[i := Some v]) ! j = Some w"
      show "outcomes ! j = Inr w"
      proof (cases "j = i")
        case True
        then show ?thesis using j w v by simp
      next
        case False
        then show ?thesis using j w "2.prems"(3)[of j w] by simp
      qed
    qed
    ultimately show ?thesis using "2.IH"(1)[OF True v] by blast
  qed
qed

lemma pMap_settle_total:
  assumes "\<And>i. i < length outcomes \<Longrightarrow> \<exists>v. outcomes ! i = Inr v"
    and "length slots = length outcomes"
    and "\<And>i. i < length slots \<Longrightarrow> slots ! i \<noteq> None \<or> i \<in> set completion"
  shows "\<exists>rs. pMap_settle completion outcomes slots = Resolved rs"
  using assms
proof (induction completion outcomes slots rule: pMap_settle.induct)
  case (1 outcomes slots)
  then show ?case by (simp add: list_all_length)
next
  case (2 i completion outcomes slots)
  show ?case
  proof (cases "i < length outcomes")
    case False
    have "\<And>j. j < length slots \<Longrightarrow> slots ! j \<noteq> None \<or> j \<in> set completion"
      using "2.prems"(3) False "2.prems"(2) by force
    then show ?thesis using "2.IH"(2)[OF False "2.prems"(1) "2.prems"(2)] False by simp
  next
    case True
    then obtain v where v: "outcomes ! i = Inr v" using "2.prems"(1) by blast
    have len: "length (slots[i := Some v]) = length outcomes" using "2.prems"(2) by simp
    have "\<And>j. j < length (slots[i := Some v]) \<Longrightarrow> (slots[i := Some v]) ! j \<noteq> None \<or> j \<in> set completion"
    proof -
      fix j assume j: "j < length (slots[i := Some v])"
      show "(slots[i := Some v]) ! j \<noteq> None \<or> j \<in> set completion"
      proof (cases "j = i")
        case True
        then show ?thesis using j by simp
      next
        case False
        then show ?thesis using j "2.prems"(3)[of j] by simp
      qed
    qed
    then have "\<exists>rs. pMap_settle completion outcomes (slots[i := Some v]) = Resolved rs"
      using "2.IH"(1)[OF True v "2.prems"(1) len] by blast
    then show ?thesis using True v by simp
  qed
qed

lemma pMap_Resolved: "pMap completion outcomes = Resolved rs \<Longrightarrow> outcomes = map Inr rs"
  unfolding pMap_def by (erule pMap_settle_Resolved) auto

lemma pMap_total:
  assumes "\<And>i. i < length outcomes \<Longrightarrow> \<exists>v. outcomes ! i = Inr v"
    and "{..<length outcomes} \<subseteq> set completion"
  shows "\<exists>rs. pMap completion outcomes = Resolved rs"
  unfolding pMap_def using assms by (intro pMap_settle_total) auto

lemma mapper_accountId: "snd (mapper r a w t) = Inr d \<Longrightarrow> accountId d = t"
  by (auto simp: mapper_def split: sum.splits if_splits prod.splits)

section \<open>Enrichment keeps the order of the listing\<close>

lemma getTokenData_snd:
  "get_tokens r 0 100 = Inr ids \<Longrightarrow>
   snd (getTokenData r completion a w) = pMap completion (map (\<lambda>t. snd (mapper r a w t)) ids)"
  by (simp add: getTokenData_def Let_def comp_def)

lemma getTokenData_Resolved_nth:
  assumes g: "get_tokens r 0 100 = Inr ids"
    and res: "snd (getTokenData r completion a w) = Resolved rs"
  shows "length rs = length ids" and "i < length ids \<Longrightarrow> snd (mapper r a w (ids ! i)) = Inr (rs ! i)"
proof -
  let ?outs = "map (\<lambda>t. snd (mapper r a w t)) ids"
  have "pMap completion ?outs = Resolved rs"
    using getTokenData_snd[OF g] res by metis
  then have outs: "?outs = map Inr rs" by (rule pMap_Resolved)
  from arg_cong[OF outs, of length] show len: "length rs = length ids" by simp
  assume i: "i < length ids"
  have "?outs ! i = map Inr rs ! i" by (rule arg_cong[OF outs])
  moreover have "?outs ! i = snd (mapper r a w (ids ! i))" using i by (rule nth_map)
  moreover have "map Inr rs ! i = (Inr (rs ! i) :: js_error + TokenData)" using i len by simp
  ultimately show "snd (mapper r a w (ids ! i)) = Inr (rs ! i)" by metis
qed

text \<open>
  Claim C5. Whatever the order in which the concurrent lookups complete, a resolved
  \<open>getTokenData\<close> holds one record per identifier of the listing, the record at position
  \<open>i\<close> carrying the identifier at position \<open>i\<close>; and it does resolve when every
  lookup succeeds and every mapper has settled.
\<close>

theorem getTokenData_keeps_input_order:
  assumes "get_tokens r 0 100 = Inr ids"
  shows "(snd (getTokenData r completion a w) = Resolved rs \<longrightarrow>
            length rs = length ids \<and> map accountId rs = ids \<and>
            (\<forall>i < length ids. accountId (rs ! i) = ids ! i))
       \<and> ((\<forall>t \<in> set ids. \<exists>d. snd (mapper r a w t) = Inr d) \<and>
            mset completion = mset [0..<length ids] \<longrightarrow>
            (\<exists>rs'. snd (getTokenData r completion a w) = Resolved rs'))"
proof (rule conjI; rule impI)
  assume res: "snd (getTokenData r completion a w) = Resolved rs"
  note len = getTokenData_Resolved_nth(1)[OF assms res]
  have nth: "accountId (rs ! i) = ids ! i" if i: "i < length ids" for i
    using getTokenData_Resolved_nth(2)[OF assms res i] by (rule mapper_accountId)
  have "map accountId rs = ids"
  proof (rule nth_equalityI)
    show "length (map accountId rs) = length ids" using len by simp
  next
    fix i assume "i < length (map accountId rs)"
    then have i: "i < length ids" using len by simp
    then show "map accountId rs ! i = ids ! i" using nth[OF i] len by simp
  qed
  with len nth show "length rs = length ids \<and> map accountId rs = ids \<and>
            (\<forall>i < length ids. accountId (rs ! i) = ids ! i)" by blast
next
  let ?outs = "map (\<lambda>t. snd (mapper r a w t)) ids"
  assume h: "(\<forall>t \<in> set ids. \<exists>d. snd (mapper r a w t) = Inr d) \<and>
               mset completion = mset [0..<length ids]"
  then have "mset completion = mset [0..<length ids]" by (rule conjunct2)
  then have "set completion = set [0..<length ids]" by (rule mset_eq_setD)
  then have cover: "{..<length ?outs} \<subseteq> set completion" by (simp add: atLeast0LessThan)
  from h have all: "\<forall>t \<in> set ids. \<exists>d. snd (mapper r a w t) = Inr d" by (rule conjunct1)
  have ok: "\<exists>v. ?outs ! i = Inr v" if "i < length ?outs" for i
    using all that by simp
  show "\<exists>rs'. snd (getTokenData r completion a w) = Resolved rs'"
    unfolding getTokenData_snd[OF assms] by (rule pMap_total[OF ok cover])
qed


lemma mapper_sample:
  "mapper sample_remote None None t =
     ([Account t, ViewFunction t ''ft_metadata'' NoArgs],
      Inr \<lparr>accountId = t, balance = None, metadata = sample_metadata\<rparr>)"
  by (simp add: mapper_def sample_remote_def truthy_string_def)

lemma getTokenData_sample:
  "snd (getTokenData sample_remote [1, 0] None None) =
     Resolved [\<lparr>accountId = ''a.test'', balance = None, metadata = sample_metadata\<rparr>,
               \<lparr>accountId = ''b.test'', balance = None, metadata = sample_metadata\<rparr>]"
proof -
  have g: "get_tokens sample_remote 0 100 = Inr [''a.test'', ''b.test'']"
    by (simp add: sample_remote_def)
  show ?thesis
    by (simp add: getTokenData_def g Let_def mapper_sample pMap_def)
qed

theorem getTokenData_keeps_input_order_witness:
  "get_tokens sample_remote 0 100 = Inr [''a.test'', ''b.test''] \<and>
   snd (getTokenData sample_remote [1, 0] None None) =
     Resolved [\<lparr>accountId = ''a.test'', balance = None, metadata = sample_metadata\<rparr>,
               \<lparr>accountId = ''b.test'', balance = None, metadata = sample_metadata\<rparr>] \<and>
   map accountId [\<lparr>accountId = ''a.test'', balance = None, metadata = sample_metadata\<rparr>,
               \<lparr>accountId = ''b.test'', balance = None, metadata = sample_metadata\<rparr>] = [''a.test'', ''b.test''] \<and>
   snd (mapper sample_remote None None ''a.test'') =
     Inr \<lparr>accountId = ''a.test'', balance = None, metadata = sample_metadata\<rparr> \<and>
   snd (mapper sample_remote None None ''b.test'') =
     Inr \<lparr>accountId = ''b.test'', balance = None, metadata = sample_metadata\<rparr> \<and>
   mset [1, 0] = mset [0..<length [''a.test'', ''b.test'']]"
proof -
  have g: "get_tokens sample_remote 0 100 = Inr [''a.test'', ''b.test'']"
    by (simp add: sample_remote_def)
  have m: "\<forall>t \<in> set [''a.test'', ''b.test'']. \<exists>d. snd (mapper sample_remote None None t) = Inr d"
    by (simp add: mapper_sample)
  have p: "mset [1, 0] = mset [0..<length [''a.test'', ''b.test'']]"
    by (simp add: upt_rec)
  show ?thesis
    using getTokenData_keeps_input_order[OF g, of "[1, 0]" None None
        "[\<lparr>accountId = ''a.test'', balance = None, metadata = sample_metadata\<rparr>,
          \<lparr>accountId = ''b.test'', balance = None, metadata = sample_metadata\<rparr>]"]
      g m p getTokenData_sample by (simp add: mapper_sample)
qed

section \<open>The lookups of one entry and the viewer identity\<close>

lemma mapper_falsy:
  "\<not> truthy_string a \<Longrightarrow>
   mapper r a w t =
     (case account r t of
        Inl e \<Rightarrow> ([Account t], Inl e)
      | Inr u \<Rightarrow>
          (case view_ft_metadata r t of
             Inl e \<Rightarrow> ([Account t, ViewFunction t ''ft_metadata'' NoArgs], Inl e)
           | Inr md \<Rightarrow>
               ([Account t, ViewFunction t ''ft_metadata'' NoArgs],
                Inr \<lparr>accountId = t, balance = None, metadata = md\<rparr>)))"
  by (simp add: mapper_def split: sum.splits)

lemma mapper_truthy:
  "truthy_string a \<Longrightarrow>
   mapper r a w t =
     (case account r t of
        Inl e \<Rightarrow> ([Account t], Inl e)
      | Inr u \<Rightarrow>
          (case view_ft_balance_of r t w of
             Inl e \<Rightarrow> ([Account t, ViewFunction t ''ft_balance_of'' (Account_id w)], Inl e)
           | Inr b \<Rightarrow>
               (case view_ft_metadata r t of
                  Inl e \<Rightarrow>
                    ([Account t, ViewFunction t ''ft_balance_of'' (Account_id w),
                      ViewFunction t ''ft_metadata'' NoArgs], Inl e)
                | Inr md \<Rightarrow>
                    ([Account t, ViewFunction t ''ft_balance_of'' (Account_id w),
                      ViewFunction t ''ft_metadata'' NoArgs],
                     Inr \<lparr>accountId = t, balance = b, metadata = md\<rparr>))))"
  by (simp add: mapper_def split: sum.splits)

lemma getTokenData_calls:
  "get_tokens r 0 100 = Inr ids \<Longrightarrow>
   set (fst (getTokenData r completion a w)) =
     insert (Get_tokens 0 100) (\<Union>t \<in> set ids. set (fst (mapper r a w t)))"
  by (simp add: getTokenData_def Let_def)

lemma getTokenData_calls_rejected:
  "get_tokens r 0 100 = Inl e \<Longrightarrow> fst (getTokenData r completion a w) = [Get_tokens 0 100]"
  by (simp add: getTokenData_def)

lemma mapper_falsy_no_balance_call:
  "\<not> truthy_string a \<Longrightarrow> ViewFunction t' ''ft_balance_of'' x \<notin> set (fst (mapper r a w t))"
  by (simp add: mapper_falsy split: sum.splits)

lemma mapper_falsy_balance:
  "\<not> truthy_string a \<Longrightarrow> snd (mapper r a w t) = Inr d \<Longrightarrow> balance d = None"
  by (auto simp: mapper_falsy split: sum.splits)

lemma mapper_falsy_metadata_call:
  "\<not> truthy_string a \<Longrightarrow> account r t = Inr u \<Longrightarrow>
   ViewFunction t ''ft_metadata'' NoArgs \<in> set (fst (mapper r a w t))"
  by (simp add: mapper_falsy split: sum.splits)

text \<open>
  Claim C9. When the viewer identity handed to \<open>getTokenData\<close> is absent (or, being
  falsy, the empty string), no \<open>ft_balance_of\<close> lookup is issued for any entry, every
  record of a resolved result has the balance \<open>null\<close>, and the metadata lookup of every
  listed identifier whose account handle was obtained is still issued.
\<close>

theorem getTokenData_absent_viewer:
  assumes "\<not> truthy_string a"
  shows "ViewFunction t' ''ft_balance_of'' x \<notin> set (fst (getTokenData r completion a w)) \<and>
         (snd (getTokenData r completion a w) = Resolved rs \<longrightarrow> (\<forall>d \<in> set rs. balance d = None)) \<and>
         (get_tokens r 0 100 = Inr ids \<and> t \<in> set ids \<and> account r t = Inr u \<longrightarrow>
          ViewFunction t ''ft_metadata'' NoArgs \<in> set (fst (getTokenData r completion a w)))"
proof (intro conjI)
  show "ViewFunction t' ''ft_balance_of'' x \<notin> set (fst (getTokenData r completion a w))"
  proof (cases "get_tokens r 0 100")
    case (Inl e)
    then show ?thesis by (simp add: getTokenData_calls_rejected)
  next
    case (Inr ids')
    then show ?thesis
      using mapper_falsy_no_balance_call[OF assms] by (simp add: getTokenData_calls)
  qed
  show "snd (getTokenData r completion a w) = Resolved rs \<longrightarrow> (\<forall>d \<in> set rs. balance d = None)"
  proof (intro impI ballI)
    fix d assume res: "snd (getTokenData r completion a w) = Resolved rs" and d: "d \<in> set rs"
    then obtain ids' where g: "get_tokens r 0 100 = Inr ids'"
      by (cases "get_tokens r 0 100") (simp_all add: getTokenData_def)
    from d obtain i where i: "i < length rs" and di: "rs ! i = d" by (auto simp: in_set_conv_nth)
    from i have "i < length ids'" using getTokenData_Resolved_nth(1)[OF g res] by simp
    then have "snd (mapper r a w (ids' ! i)) = Inr (rs ! i)"
      by (rule getTokenData_Resolved_nth(2)[OF g res])
    then have "balance (rs ! i) = None" by (rule mapper_falsy_balance[OF assms])
    then show "balance d = None" using di by simp
  qed
  show "get_tokens r 0 100 = Inr ids \<and> t \<in> set ids \<and> account r t = Inr u \<longrightarrow>
         ViewFunction t ''ft_metadata'' NoArgs \<in> set (fst (getTokenData r completion a w))"
  proof
    assume h: "get_tokens r 0 100 = Inr ids \<and> t \<in> set ids \<and> account r t = Inr u"
    then have g: "get_tokens r 0 100 = Inr ids" and t: "t \<in> set ids" and acc: "account r t = Inr u"
      by blast+
    have "ViewFunction t ''ft_metadata'' NoArgs \<in> set (fst (mapper r a w t))"
      using assms acc by (rule mapper_falsy_metadata_call)
    then show "ViewFunction t ''ft_metadata'' NoArgs \<in> set (fst (getTokenData r completion a w))"
      using t by (auto simp: getTokenData_calls[OF g])
  qed
qed


lemma getTokenData_sample_calls:
  "fst (getTokenData sample_remote [1, 0] None None) =
     [Get_tokens 0 100, Account ''a.test'', ViewFunction ''a.test'' ''ft_metadata'' NoArgs,
      Account ''b.test'', ViewFunction ''b.test'' ''ft_metadata'' NoArgs]"
proof -
  have g: "get_tokens sample_remote 0 100 = Inr [''a.test'', ''b.test'']"
    by (simp add: sample_remote_def)
  show ?thesis
    by (simp add: getTokenData_def g Let_def mapper_sample)
qed

text \<open>
  The instance of claim C9 at the registry \<open>a.test\<close>, \<open>b.test\<close> with no viewer: both
  balances are \<open>null\<close>, and \<open>Token\<close> renders such a balance as the dash.
\<close>

theorem getTokenData_absent_viewer_witness:
  "\<not> truthy_string None \<and>
   snd (getTokenData sample_remote [1, 0] None None) =
     Resolved [\<lparr>accountId = ''a.test'', balance = None, metadata = sample_metadata\<rparr>,
               \<lparr>accountId = ''b.test'', balance = None, metadata = sample_metadata\<rparr>] \<and>
   ViewFunction ''a.test'' ''ft_balance_of'' (Account_id None)
     \<notin> set (fst (getTokenData sample_remote [1, 0] None None)) \<and>
   ViewFunction ''b.test'' ''ft_metadata'' NoArgs
     \<in> set (fst (getTokenData sample_remote [1, 0] None None)) \<and>
   Token_balance None sample_metadata = Text ''-''"
proof -
  have f: "\<not> truthy_string None" by (simp add: truthy_string_def)
  have g: "get_tokens sample_remote 0 100 = Inr [''a.test'', ''b.test'']"
    by (simp add: sample_remote_def)
  have acc: "account sample_remote ''b.test'' = Inr ()" by (simp add: sample_remote_def)
  have tb: "Token_balance None sample_metadata = Text ''-''"
    by (simp add: Token_balance_def truthy_number_def)
  show ?thesis
    using getTokenData_absent_viewer[OF f, of "''a.test''" "Account_id None" sample_remote "[1, 0]" None
        "[\<lparr>accountId = ''a.test'', balance = None, metadata = sample_metadata\<rparr>,
          \<lparr>accountId = ''b.test'', balance = None, metadata = sample_metadata\<rparr>]"
        "[''a.test'', ''b.test'']" "''b.test''" "()"]
      f g acc tb getTokenData_sample by simp
qed

lemma mapper_gate: "truthy_string a = truthy_string a' \<Longrightarrow> mapper r a w t = mapper r a' w t"
  by (simp add: mapper_def)

lemma mapper_account_id_arg:
  "ViewFunction t' m (Account_id x) \<in> set (fst (mapper r a w t)) \<Longrightarrow>
   x = w \<and> m = ''ft_balance_of'' \<and> t' = t \<and> truthy_string a"
  by (cases "truthy_string a") (auto simp: mapper_truthy mapper_falsy split: sum.splits)

lemma mapper_truthy_balance_call:
  "truthy_string a \<Longrightarrow> account r t = Inr u \<Longrightarrow>
   ViewFunction t ''ft_balance_of'' (Account_id w) \<in> set (fst (mapper r a w t))"
  by (simp add: mapper_truthy split: sum.splits)

text \<open>
  Claim C10. The \<open>accountId\<close> parameter of \<open>getTokenData\<close> only decides, by its
  truthiness, whether balances are looked up: two parameters of equal truthiness give
  the same calls and the same result. Every \<open>account_id\<close> sent with a lookup is the
  global \<open>window.accountId\<close>, so with the same parameter and two different globals the
  balance of a listed token is queried for two different accounts.
\<close>

theorem getTokenData_viewer_argument_is_a_gate:
  "(truthy_string a = truthy_string a' \<longrightarrow>
      getTokenData r completion a w = getTokenData r completion a' w) \<and>
   (ViewFunction t' m (Account_id x) \<in> set (fst (getTokenData r completion a w)) \<longrightarrow>
      x = w \<and> m = ''ft_balance_of'' \<and> truthy_string a) \<and>
   (truthy_string a \<and> get_tokens r 0 100 = Inr ids \<and> t \<in> set ids \<and> account r t = Inr u \<and> w \<noteq> w' \<longrightarrow>
      ViewFunction t ''ft_balance_of'' (Account_id w) \<in> set (fst (getTokenData r completion a w)) \<and>
      ViewFunction t ''ft_balance_of'' (Account_id w) \<notin> set (fst (getTokenData r completion a w')) \<and>
      ViewFunction t ''ft_balance_of'' (Account_id w') \<in> set (fst (getTokenData r completion a w')))"
proof -
  have gate: "truthy_string a = truthy_string a' \<longrightarrow>
      getTokenData r completion a w = getTokenData r completion a' w"
  proof
    assume "truthy_string a = truthy_string a'"
    then have eq: "mapper r a w = mapper r a' w" using mapper_gate by blast
    show "getTokenData r completion a w = getTokenData r completion a' w"
      unfolding getTokenData_def eq by (rule refl)
  qed
  have sent: "ViewFunction t' m (Account_id x) \<in> set (fst (getTokenData r completion a w)) \<longrightarrow>
      x = w \<and> m = ''ft_balance_of'' \<and> truthy_string a"
  proof
    assume c: "ViewFunction t' m (Account_id x) \<in> set (fst (getTokenData r completion a w))"
    show "x = w \<and> m = ''ft_balance_of'' \<and> truthy_string a"
    proof (cases "get_tokens r 0 100")
      case (Inl e)
      then show ?thesis using c by (simp add: getTokenData_calls_rejected)
    next
      case (Inr ids')
      then obtain t0 where "ViewFunction t' m (Account_id x) \<in> set (fst (mapper r a w t0))"
        using c by (auto simp: getTokenData_calls)
      then show ?thesis using mapper_account_id_arg by blast
    qed
  qed
  have differ: "truthy_string a \<and> get_tokens r 0 100 = Inr ids \<and> t \<in> set ids \<and> account r t = Inr u \<and> w \<noteq> w' \<longrightarrow>
      ViewFunction t ''ft_balance_of'' (Account_id w) \<in> set (fst (getTokenData r completion a w)) \<and>
      ViewFunction t ''ft_balance_of'' (Account_id w) \<notin> set (fst (getTokenData r completion a w')) \<and>
      ViewFunction t ''ft_balance_of'' (Account_id w') \<in> set (fst (getTokenData r completion a w'))"
  proof
    assume h: "truthy_string a \<and> get_tokens r 0 100 = Inr ids \<and> t \<in> set ids \<and> account r t = Inr u \<and> w \<noteq> w'"
    then have tr: "truthy_string a" and g: "get_tokens r 0 100 = Inr ids" and t: "t \<in> set ids"
      and acc: "account r t = Inr u" and ne: "w \<noteq> w'" by blast+
    have "ViewFunction t ''ft_balance_of'' (Account_id w) \<in> set (fst (mapper r a w t))"
      using tr acc by (rule mapper_truthy_balance_call)
    then have one: "ViewFunction t ''ft_balance_of'' (Account_id w) \<in> set (fst (getTokenData r completion a w))"
      using t by (auto simp: getTokenData_calls[OF g])
    have "ViewFunction t ''ft_balance_of'' (Account_id w') \<in> set (fst (mapper r a w' t))"
      using tr acc by (rule mapper_truthy_balance_call)
    then have other: "ViewFunction t ''ft_balance_of'' (Account_id w') \<in> set (fst (getTokenData r completion a w'))"
      using t by (auto simp: getTokenData_calls[OF g])
    have never: "ViewFunction t ''ft_balance_of'' (Account_id w) \<notin> set (fst (getTokenData r completion a w'))"
    proof
      assume "ViewFunction t ''ft_balance_of'' (Account_id w) \<in> set (fst (getTokenData r completion a w'))"
      then obtain t0 where "ViewFunction t ''ft_balance_of'' (Account_id w) \<in> set (fst (mapper r a w' t0))"
        by (auto simp: getTokenData_calls[OF g])
      then have "w = w'" using mapper_account_id_arg by blast
      then show False using ne by simp
    qed
    from one never other show
      "ViewFunction t ''ft_balance_of'' (Account_id w) \<in> set (fst (getTokenData r completion a w)) \<and>
       ViewFunction t ''ft_balance_of'' (Account_id w) \<notin> set (fst (getTokenData r completion a w')) \<and>
       ViewFunction t ''ft_balance_of'' (Account_id w') \<in> set (fst (getTokenData r completion a w'))"
      by (intro conjI)
  qed
  from gate sent differ show ?thesis by (intro conjI)
qed


text \<open>
  The instance of claim C10 with the parameter \<open>alice.test\<close> and the globals
  \<open>alice.test\<close> and \<open>bob.test\<close>.
\<close>

theorem getTokenData_viewer_argument_is_a_gate_witness:
  "truthy_string (Some ''alice.test'') \<and>
   get_tokens sample_remote 0 100 = Inr [''a.test'', ''b.test''] \<and>
   account sample_remote ''a.test'' = Inr () \<and>
   Some ''alice.test'' \<noteq> Some ''bob.test'' \<and>
   ViewFunction ''a.test'' ''ft_balance_of'' (Account_id (Some ''alice.test''))
     \<in> set (fst (getTokenData sample_remote [0, 1] (Some ''alice.test'') (Some ''alice.test''))) \<and>
   ViewFunction ''a.test'' ''ft_balance_of'' (Account_id (Some ''alice.test''))
     \<notin> set (fst (getTokenData sample_remote [0, 1] (Some ''alice.test'') (Some ''bob.test''))) \<and>
   ViewFunction ''a.test'' ''ft_balance_of'' (Account_id (Some ''bob.test''))
     \<in> set (fst (getTokenData sample_remote [0, 1] (Some ''alice.test'') (Some ''bob.test'')))"
proof -
  have tr: "truthy_string (Some ''alice.test'')" by (simp add: truthy_string_def)
  have g: "get_tokens sample_remote 0 100 = Inr [''a.test'', ''b.test'']"
    by (simp add: sample_remote_def)
  have acc: "account sample_remote ''a.test'' = Inr ()" by (simp add: sample_remote_def)
  have ne: "Some ''alice.test'' \<noteq> Some ''bob.test''" by simp
  have t: "''a.test'' \<in> set [''a.test'', ''b.test'']" by simp
  show ?thesis
    using getTokenData_viewer_argument_is_a_gate[of "Some ''alice.test''" "Some ''alice.test''"
        sample_remote "[0, 1]" "Some ''alice.test''" "''a.test''" "''ft_balance_of''"
        "Some ''alice.test''" "[''a.test'', ''b.test'']" "''a.test''" "()" "Some ''bob.test''"]
      tr g acc ne t by blast
qed

text \<open>
  Claim C8, as stated, fails: with a viewer present and a rejecting balance lookup, the
  mapper ends at the rejected \<open>await\<close> and never issues the metadata lookup of that
  identifier, which would have succeeded.
\<close>

theorem balance_rejection_skips_metadata_counterexample:
  "truthy_string (Some ''alice.test'') \<and>
   account rejecting_remote ''a.test'' = Inr () \<and>
   view_ft_balance_of rejecting_remote ''a.test'' (Some ''alice.test'') = Inl (JsError ''boom'') \<and>
   view_ft_metadata rejecting_remote ''a.test'' = Inr sample_metadata \<and>
   mapper rejecting_remote (Some ''alice.test'') (Some ''alice.test'') ''a.test'' =
     ([Account ''a.test'', ViewFunction ''a.test'' ''ft_balance_of'' (Account_id (Some ''alice.test''))],
      Inl (JsError ''boom'')) \<and>
   ViewFunction ''a.test'' ''ft_metadata'' NoArgs
     \<notin> set (fst (mapper rejecting_remote (Some ''alice.test'') (Some ''alice.test'') ''a.test''))"
  by (simp add: mapper_def rejecting_remote_def sample_remote_def truthy_string_def)

text \<open>
  Claim C8, amended. The lookups of one identifier are issued one after the other:
  a rejected balance lookup ends the entry with that rejection, the metadata lookup not
  being issued; the balance lookup, coming first, is issued whatever the metadata lookup
  would answer; and the metadata lookup is issued once the balance lookup was skipped or
  has succeeded.
\<close>

theorem mapper_lookups_are_sequential:
  "(truthy_string a \<and> account r t = Inr u \<and> view_ft_balance_of r t w = Inl e \<longrightarrow>
      mapper r a w t = ([Account t, ViewFunction t ''ft_balance_of'' (Account_id w)], Inl e)) \<and>
   (truthy_string a \<and> account r t = Inr u \<longrightarrow>
      ViewFunction t ''ft_balance_of'' (Account_id w) \<in> set (fst (mapper r a w t))) \<and>
   (account r t = Inr u \<and> (truthy_string a \<longrightarrow> (\<exists>b. view_ft_balance_of r t w = Inr b)) \<longrightarrow>
      ViewFunction t ''ft_metadata'' NoArgs \<in> set (fst (mapper r a w t)))"
proof -
  have stop: "truthy_string a \<and> account r t = Inr u \<and> view_ft_balance_of r t w = Inl e \<longrightarrow>
      mapper r a w t = ([Account t, ViewFunction t ''ft_balance_of'' (Account_id w)], Inl e)"
    by (simp add: mapper_truthy)
  have first: "truthy_string a \<and> account r t = Inr u \<longrightarrow>
      ViewFunction t ''ft_balance_of'' (Account_id w) \<in> set (fst (mapper r a w t))"
    using mapper_truthy_balance_call by blast
  have after: "account r t = Inr u \<and> (truthy_string a \<longrightarrow> (\<exists>b. view_ft_balance_of r t w = Inr b)) \<longrightarrow>
      ViewFunction t ''ft_metadata'' NoArgs \<in> set (fst (mapper r a w t))"
    by (cases "truthy_string a") (auto simp: mapper_truthy mapper_falsy split: sum.splits)
  from stop first after show ?thesis by (intro conjI)
qed

text \<open>
  The instances of the amended claim C8 at a rejecting and at a succeeding balance lookup.
\<close>

theorem mapper_lookups_are_sequential_witness:
  "truthy_string (Some ''alice.test'') \<and>
   account rejecting_remote ''a.test'' = Inr () \<and>
   view_ft_balance_of rejecting_remote ''a.test'' (Some ''alice.test'') = Inl (JsError ''boom'') \<and>
   mapper rejecting_remote (Some ''alice.test'') (Some ''alice.test'') ''a.test'' =
     ([Account ''a.test'', ViewFunction ''a.test'' ''ft_balance_of'' (Account_id (Some ''alice.test''))],
      Inl (JsError ''boom'')) \<and>
   account sample_remote ''a.test'' = Inr () \<and>
   view_ft_balance_of sample_remote ''a.test'' (Some ''alice.test'') = Inr (Some 5000000) \<and>
   ViewFunction ''a.test'' ''ft_balance_of'' (Account_id (Some ''alice.test''))
     \<in> set (fst (mapper sample_remote (Some ''alice.test'') (Some ''alice.test'') ''a.test'')) \<and>
   ViewFunction ''a.test'' ''ft_metadata'' NoArgs
     \<in> set (fst (mapper sample_remote (Some ''alice.test'') (Some ''alice.test'') ''a.test''))"
proof -
  have tr: "truthy_string (Some ''alice.test'')" by (simp add: truthy_string_def)
  have acc: "account rejecting_remote ''a.test'' = Inr ()"
    by (simp add: rejecting_remote_def sample_remote_def)
  have rej: "view_ft_balance_of rejecting_remote ''a.test'' (Some ''alice.test'') = Inl (JsError ''boom'')"
    by (simp add: rejecting_remote_def)
  have acc': "account sample_remote ''a.test'' = Inr ()" by (simp add: sample_remote_def)
  have bal: "view_ft_balance_of sample_remote ''a.test'' (Some ''alice.test'') = Inr (Some 5000000)"
    by (simp add: sample_remote_def)
  show ?thesis
    using mapper_lookups_are_sequential[of "Some ''alice.test''" rejecting_remote "''a.test''" "()"
        "Some ''alice.test''" "JsError ''boom''"]
      mapper_lookups_are_sequential[of "Some ''alice.test''" sample_remote "''a.test''" "()"
        "Some ''alice.test''" "JsError ''boom''"]
      tr acc rej acc' bal by blast
qed

section \<open>Classifying a rejection of \<open>add_token\<close>\<close>

lemma sublist_not_a_token:
  "sublist ''Unable to get result of token account verification''
     ''Smart contract panicked: Unable to get result of token account verification''"
  by code_simp

lemma sublist_other_panic:
  "\<not> sublist ''Unable to get result of token account verification''
     ''Smart contract panicked: Token already exists''"
  by code_simp

lemma isNotTokenAccount_not_a_token: "isNotTokenAccount not_a_token_json = Inr True"
  by (simp add: isNotTokenAccount_def not_a_token_json_def sublist_not_a_token)

lemma isNotTokenAccount_other_panic: "isNotTokenAccount other_panic_json = Inr False"
  by (simp add: isNotTokenAccount_def other_panic_json_def sublist_other_panic)

lemma messages_differ: "other_panic_message \<noteq> not_a_token_message"
  by (simp add: other_panic_message_def not_a_token_message_def)

lemma parse_other: "sample_JSON_parse other_panic_message = Inr other_panic_json"
  by (simp add: sample_JSON_parse_def messages_differ)

lemma parse_not_a_token: "sample_JSON_parse not_a_token_message = Inr not_a_token_json"
  by (simp add: sample_JSON_parse_def)

lemma catch_block_unmatched:
  "JSON_parse (message e) = Inr j \<Longrightarrow> isNotTokenAccount j = Inr False \<Longrightarrow>
   catch_block JSON_parse e s = (None, s)"
  by (simp add: catch_block_def)

lemma catch_block_not_a_token:
  "JSON_parse (message e) = Inr j \<Longrightarrow> isNotTokenAccount j = Inr True \<Longrightarrow>
   catch_block JSON_parse e s =
     (None,
      s\<lparr>notificationMessage := ''The provided account ID does not contain a fungible token contract'',
        isFailureNotification := True, showNotification := True,
        timers := timers s @ [clock s + 11000]\<rparr>)"
  by (simp add: catch_block_def setTimeout_clear_def)

lemma catch_block_unparseable:
  "JSON_parse (message e) = Inl h \<Longrightarrow>
   catch_block JSON_parse e s = (Some e, s\<lparr>alerts := alerts s @ [alert_text]\<rparr>)"
  by (simp add: catch_block_def)

lemma catch_block_TypeError:
  "JSON_parse (message e) = Inr j \<Longrightarrow> isNotTokenAccount j = Inl h \<Longrightarrow>
   catch_block JSON_parse e s = (Some e, s\<lparr>alerts := alerts s @ [alert_text]\<rparr>)"
  by (simp add: catch_block_def)

text \<open>
  Claim C1 asks for a blocking alert and the original error re-raised on every rejection
  that is not the recognised one. The handler does that only when \<open>JSON.parse\<close> or the
  \<open>includes\<close> call throws: a rejection whose payload parses and does not match leaves
  the \<open>try\<close> block normally, so nothing is shown, nothing is scheduled and nothing is
  re-raised.
\<close>

theorem onSubmit_unmatched_rejection_is_swallowed:
  assumes "JSON_parse (message e) = Inr j" and "isNotTokenAccount j = Inr False"
  shows "fst (onSubmit JSON_parse (Inl e) s) = None \<and>
         alerts (snd (onSubmit JSON_parse (Inl e) s)) = alerts s \<and>
         showNotification (snd (onSubmit JSON_parse (Inl e) s)) = showNotification s \<and>
         notificationMessage (snd (onSubmit JSON_parse (Inl e) s)) = notificationMessage s \<and>
         isFailureNotification (snd (onSubmit JSON_parse (Inl e) s)) = isFailureNotification s \<and>
         timers (snd (onSubmit JSON_parse (Inl e) s)) = timers s"
  using catch_block_unmatched[of JSON_parse e j "onSubmit_call s"] assms
  by (simp add: onSubmit_def onSubmit_settle_def finally_block_def onSubmit_call_def)

text \<open>
  The failing input of claim C1: the registry panics with another message.
\<close>

theorem onSubmit_unmatched_rejection_is_swallowed_witness:
  "sample_JSON_parse (message (JsError other_panic_message)) = Inr other_panic_json \<and>
   isNotTokenAccount other_panic_json = Inr False \<and>
   fst (onSubmit sample_JSON_parse (Inl (JsError other_panic_message)) (initial None)) = None \<and>
   alerts (snd (onSubmit sample_JSON_parse (Inl (JsError other_panic_message)) (initial None))) = [] \<and>
   showNotification (snd (onSubmit sample_JSON_parse (Inl (JsError other_panic_message)) (initial None))) = False \<and>
   timers (snd (onSubmit sample_JSON_parse (Inl (JsError other_panic_message)) (initial None))) = []"
proof -
  have p: "sample_JSON_parse (message (JsError other_panic_message)) = Inr other_panic_json"
    by (simp add: parse_other)
  have i: "alerts (initial None) = [] \<and> showNotification (initial None) = False \<and> timers (initial None) = []"
    by (simp add: initial_def)
  show ?thesis
    using onSubmit_unmatched_rejection_is_swallowed[of sample_JSON_parse
        "JsError other_panic_message" other_panic_json "initial None"]
      p isNotTokenAccount_other_panic i by simp
qed

text \<open>The two kinds of rejection on which the handler does what claim C1 says.\<close>

lemma onSubmit_not_a_token:
  assumes "JSON_parse (message e) = Inr j" and "isNotTokenAccount j = Inr True"
  shows "fst (onSubmit JSON_parse (Inl e) s) = None \<and>
         alerts (snd (onSubmit JSON_parse (Inl e) s)) = alerts s \<and>
         showNotification (snd (onSubmit JSON_parse (Inl e) s)) = True \<and>
         notificationMessage (snd (onSubmit JSON_parse (Inl e) s)) =
           ''The provided account ID does not contain a fungible token contract'' \<and>
         isFailureNotification (snd (onSubmit JSON_parse (Inl e) s)) = True \<and>
         timers (snd (onSubmit JSON_parse (Inl e) s)) = timers s @ [clock s + 11000]"
  using catch_block_not_a_token[of JSON_parse e j "onSubmit_call s"] assms
  by (simp add: onSubmit_def onSubmit_settle_def finally_block_def onSubmit_call_def)

lemma onSubmit_unparseable:
  assumes "JSON_parse (message e) = Inl h"
  shows "fst (onSubmit JSON_parse (Inl e) s) = Some e \<and>
         alerts (snd (onSubmit JSON_parse (Inl e) s)) = alerts s @ [alert_text] \<and>
         showNotification (snd (onSubmit JSON_parse (Inl e) s)) = showNotification s \<and>
         timers (snd (onSubmit JSON_parse (Inl e) s)) = timers s"
  using catch_block_unparseable[of JSON_parse e h "onSubmit_call s"] assms
  by (simp add: onSubmit_def onSubmit_settle_def finally_block_def onSubmit_call_def)

lemma isNotTokenAccount_matching_string:
  "sublist ''Unable to get result of token account verification'' msg \<Longrightarrow>
   map_of kvs ''kind'' = Some (JObject kvs') \<Longrightarrow> map_of kvs' ''ExecutionError'' = Some (JString msg) \<Longrightarrow>
   isNotTokenAccount (JObject kvs) = Inr True"
  by (auto simp: isNotTokenAccount_def)

section \<open>The successful submit and the handler's paths\<close>

lemma onSubmit_success:
  "onSubmit JSON_parse (Inr added) s =
     (None,
      s\<lparr>fieldset_disabled := False,
        calls := calls s @ [Add_token (token_value s)],
        notificationMessage := ''Added '' @ token_value s @ '' to the token list'',
        showNotification := True,
        timers := timers s @ [clock s + 11000],
        syncs := syncs s @ [window_accountId s]\<rparr>)"
  by (simp add: onSubmit_def onSubmit_settle_def onSubmit_call_def setTimeout_clear_def
      finally_block_def)

lemma onSubmit_settle_success:
  "onSubmit_settle JSON_parse (Inr added) s =
     (None,
      s\<lparr>fieldset_disabled := False,
        notificationMessage := ''Added '' @ token_value s @ '' to the token list'',
        showNotification := True,
        timers := timers s @ [clock s + 11000],
        syncs := syncs s @ [window_accountId s]\<rparr>)"
  by (simp add: onSubmit_settle_def setTimeout_clear_def finally_block_def)

lemma catch_block_cases:
  "catch_block JSON_parse e s = (None, s) \<or>
   catch_block JSON_parse e s = (Some e, s\<lparr>alerts := alerts s @ [alert_text]\<rparr>) \<or>
   catch_block JSON_parse e s =
     (None,
      s\<lparr>notificationMessage := ''The provided account ID does not contain a fungible token contract'',
        isFailureNotification := True, showNotification := True,
        timers := timers s @ [clock s + 11000]\<rparr>)"
  by (simp add: catch_block_def setTimeout_clear_def split: sum.splits bool.splits)

text \<open>
  Claim C2, as stated, fails: submitting the form while the input is empty calls
  \<open>add_token\<close> with the empty string.
\<close>

theorem onSubmit_empty_identifier_counterexample:
  "token_value (initial None) = [] \<and>
   calls (snd (onSubmit sample_JSON_parse (Inr True) (initial None))) = [Add_token []]"
  by (simp add: onSubmit_success initial_def)

text \<open>
  Claim C2, amended. The submit handler validates nothing: it calls \<open>add_token\<close> once,
  with whatever the input holds, the empty string included. The only guard is in the
  view: the button starts disabled and \<open>onChange\<close> disables it exactly when the input
  is empty.
\<close>

theorem onSubmit_forwards_any_identifier:
  "calls (onSubmit_call s) = calls s @ [Add_token (token_value s)] \<and>
   calls (snd (onSubmit JSON_parse outcome s)) = calls s @ [Add_token (token_value s)] \<and>
   buttonDisabled (onChange v s) = (v = []) \<and>
   token_value (onChange v s) = v \<and>
   buttonDisabled (initial viewer) = True"
proof -
  have c: "calls (onSubmit_call s) = calls s @ [Add_token (token_value s)]"
    by (simp add: onSubmit_call_def)
  have "calls (snd (onSubmit JSON_parse outcome s)) = calls (onSubmit_call s)"
  proof (cases outcome)
    case (Inl e)
    then show ?thesis
      using catch_block_cases[of JSON_parse e "onSubmit_call s"]
      by (auto simp: onSubmit_def onSubmit_settle_def finally_block_def)
  next
    case (Inr added)
    then show ?thesis by (simp add: onSubmit_success onSubmit_call_def)
  qed
  with c show ?thesis by (simp add: onChange_def initial_def)
qed

section \<open>The balance shown by \<open>Token\<close>\<close>

text \<open>
  Claim C4 asks that a balance of zero is rendered as the number zero. The test
  \<^verbatim>\<open>balance ? ... : "-"\<close> is one of truthiness, and the number 0 is falsy: a zero
  balance is rendered as the dash that stands for an absent one.
\<close>

theorem Token_balance_zero_is_dash:
  "Token_balance (Some 0) md = Text ''-'' \<and>
   (Token_balance bal md = Text ''-'') = (bal = None \<or> bal = Some 0)"
proof -
  have zero: "Token_balance (Some 0) md = Text ''-''"
    by (simp add: Token_balance_def truthy_number_def)
  have "(Token_balance bal md = Text ''-'') = (bal = None \<or> bal = Some 0)"
  proof (cases bal)
    case None
    then show ?thesis by (simp add: Token_balance_def truthy_number_def)
  next
    case (Some b)
    then show ?thesis by (cases "b = 0") (simp_all add: Token_balance_def truthy_number_def)
  qed
  with zero show ?thesis by (rule conjI)
qed

lemma Token_balance_absent: "Token_balance None md = Text ''-''"
  by (simp add: Token_balance_def truthy_number_def)

lemma Token_balance_nonzero:
  "b \<noteq> 0 \<Longrightarrow> Token_balance (Some b) md = Number (b / 10 ^ decimals md)"
  by (simp add: Token_balance_def truthy_number_def nullish_coalesce_def)

lemma Token_balance_no_decimals:
  "b \<noteq> 0 \<Longrightarrow> decimals md = 0 \<Longrightarrow> Token_balance (Some b) md = Number b"
  by (simp add: Token_balance_nonzero)

section \<open>The \<open>finally\<close> block\<close>

lemma parse_boom: "sample_JSON_parse (message (JsError ''boom'')) = Inl SyntaxError"
  by (simp add: sample_JSON_parse_def not_a_token_message_def other_panic_message_def)

lemma mapper_no_Get_tokens: "Get_tokens i j \<notin> set (fst (mapper r a w t))"
  by (cases "truthy_string a") (simp_all add: mapper_truthy mapper_falsy split: sum.splits)

text \<open>
  Claim C7. Whatever the settlement of \<open>add_token\<close> and whatever the handler does with
  it, the handler leaves the fieldset enabled and has started \<open>getTokenData\<close> exactly
  once, with \<open>window.accountId\<close>; this holds in particular on the path that throws the
  error again; and a run of \<open>getTokenData\<close> begins with its one call of
  \<open>get_tokens\<close> for the first 100 entries.
\<close>

theorem onSubmit_always_unlocks_and_resyncs:
  "fieldset_disabled (snd (onSubmit JSON_parse outcome s)) = False \<and>
   syncs (snd (onSubmit JSON_parse outcome s)) = syncs s @ [window_accountId s] \<and>
   (JSON_parse (message e) = Inl h \<longrightarrow>
      fst (onSubmit JSON_parse (Inl e) s) = Some e \<and>
      fieldset_disabled (snd (onSubmit JSON_parse (Inl e) s)) = False \<and>
      syncs (snd (onSubmit JSON_parse (Inl e) s)) = syncs s @ [window_accountId s]) \<and>
   (\<exists>cs. fst (getTokenData r completion (window_accountId s) (window_accountId s)) =
           Get_tokens 0 100 # cs \<and> (\<forall>i j. Get_tokens i j \<notin> set cs))"
proof -
  have state: "fieldset_disabled (snd (onSubmit JSON_parse outcome' s)) = False \<and>
   syncs (snd (onSubmit JSON_parse outcome' s)) = syncs s @ [window_accountId s]" for outcome'
  proof (cases outcome')
    case (Inl e')
    then show ?thesis
      using catch_block_cases[of JSON_parse e' "onSubmit_call s"]
      by (auto simp: onSubmit_def onSubmit_settle_def finally_block_def onSubmit_call_def)
  next
    case (Inr added)
    then show ?thesis by (simp add: onSubmit_success)
  qed
  have raised: "JSON_parse (message e) = Inl h \<longrightarrow>
      fst (onSubmit JSON_parse (Inl e) s) = Some e \<and>
      fieldset_disabled (snd (onSubmit JSON_parse (Inl e) s)) = False \<and>
      syncs (snd (onSubmit JSON_parse (Inl e) s)) = syncs s @ [window_accountId s]"
    using state[of "Inl e"] onSubmit_unparseable[of JSON_parse e h s] by simp
  have list: "\<exists>cs. fst (getTokenData r completion (window_accountId s) (window_accountId s)) =
           Get_tokens 0 100 # cs \<and> (\<forall>i j. Get_tokens i j \<notin> set cs)"
  proof (cases "get_tokens r 0 100")
    case (Inl e')
    then show ?thesis by (simp add: getTokenData_def)
  next
    case (Inr ids)
    then show ?thesis by (simp add: getTokenData_def Let_def mapper_no_Get_tokens)
  qed
  from state[of outcome] raised list show ?thesis by (intro conjI) simp_all
qed

text \<open>
  The instance of claim C7 at a rejection whose message is no JSON text: the error is
  thrown again, and the form is enabled and the re-sync started all the same.
\<close>

theorem onSubmit_always_unlocks_and_resyncs_witness:
  "sample_JSON_parse (message (JsError ''boom'')) = Inl SyntaxError \<and>
   fst (onSubmit sample_JSON_parse (Inl (JsError ''boom'')) (initial None)) = Some (JsError ''boom'') \<and>
   fieldset_disabled (snd (onSubmit sample_JSON_parse (Inl (JsError ''boom'')) (initial None))) = False \<and>
   syncs (snd (onSubmit sample_JSON_parse (Inl (JsError ''boom'')) (initial None))) = [None, None]"
proof -
  have i: "syncs (initial None) = [None] \<and> window_accountId (initial None) = None"
    by (simp add: initial_def)
  show ?thesis
    using onSubmit_always_unlocks_and_resyncs[of sample_JSON_parse "Inl (JsError ''boom'')"
        "initial None" "JsError ''boom''" SyntaxError sample_remote "[]"]
      parse_boom i by simp
qed

section \<open>The auto-clear timers\<close>

lemma clear_callback_idem: "clear_callback (clear_callback s) = clear_callback s"
  by (simp add: clear_callback_def)

lemma fold_clear_callback:
  "xs \<noteq> [] \<Longrightarrow> fold (\<lambda>d. clear_callback) xs s = clear_callback s"
proof (induction xs arbitrary: s)
  case Nil
  then show ?case by simp
next
  case (Cons x xs)
  show ?case
  proof (cases "xs = []")
    case True
    then show ?thesis by simp
  next
    case False
    then have "fold (\<lambda>d. clear_callback) xs (clear_callback s) = clear_callback (clear_callback s)"
      by (rule Cons.IH)
    then show ?thesis by (simp add: clear_callback_idem)
  qed
qed

lemma advance_due:
  assumes "d \<in> set (timers s)" and "d \<le> t"
  shows "showNotification (advance t s) = False \<and> notificationMessage (advance t s) = [] \<and>
         isFailureNotification (advance t s) = False \<and> d \<notin> set (timers (advance t s))"
proof -
  have "d \<in> set (filter (\<lambda>d. d \<le> t) (timers s))" using assms by simp
  then have "filter (\<lambda>d. d \<le> t) (timers s) \<noteq> []" by (metis empty_iff empty_set)
  then have "fold (\<lambda>d. clear_callback) (filter (\<lambda>d. d \<le> t) (timers s)) s = clear_callback s"
    by (rule fold_clear_callback)
  then show ?thesis using assms(2) by (simp add: advance_def clear_callback_def)
qed

lemma advance_not_due:
  assumes "\<forall>d \<in> set (timers s). t < d"
  shows "advance t s = s\<lparr>clock := max (clock s) t\<rparr>"
proof -
  have "filter (\<lambda>d. d \<le> t) (timers s) = []" using assms by (auto simp: filter_empty_conv)
  moreover have "filter (\<lambda>d. \<not> d \<le> t) (timers s) = timers s" using assms by (auto simp: filter_id_conv)
  ultimately show ?thesis by (simp add: advance_def)
qed

lemma onSubmit_settle_keeps_timers:
  "d \<in> set (timers s) \<Longrightarrow> d \<in> set (timers (snd (onSubmit_settle JSON_parse outcome s)))"
proof (cases outcome)
  case (Inl e)
  assume "d \<in> set (timers s)"
  then show ?thesis
    using Inl catch_block_cases[of JSON_parse e s]
    by (auto simp: onSubmit_settle_def finally_block_def)
next
  case (Inr added)
  assume "d \<in> set (timers s)"
  then show ?thesis using Inr by (simp add: onSubmit_settle_success)
qed

text \<open>
  Claim C3, amended. No path of the handler cancels a pending timer: a timer pending
  when \<open>add_token\<close> settles is still pending afterwards, whatever notification the
  handler shows, and when it falls due it clears the notification then on display
  (message empty, failure flag off, hidden).
\<close>

theorem stale_timer_clears_newer_notification:
  assumes "d \<in> set (timers s)" and "d \<le> t"
  shows "d \<in> set (timers (snd (onSubmit_settle JSON_parse outcome s))) \<and>
         showNotification (advance t (snd (onSubmit_settle JSON_parse outcome s))) = False \<and>
         notificationMessage (advance t (snd (onSubmit_settle JSON_parse outcome s))) = [] \<and>
         isFailureNotification (advance t (snd (onSubmit_settle JSON_parse outcome s))) = False"
proof -
  have keep: "d \<in> set (timers (snd (onSubmit_settle JSON_parse outcome s)))"
    using assms(1) by (rule onSubmit_settle_keeps_timers)
  from advance_due[OF keep assms(2)] keep show ?thesis by simp
qed

lemma first_shown_eq:
  "first_shown =
     \<lparr>tokens = [], buttonDisabled = False, showNotification = True,
      isFailureNotification = False, notificationMessage = ''Added a.test to the token list'',
      fieldset_disabled = False, token_value = ''b.test'', window_accountId = None,
      clock = 5000, timers = [11000], alerts = [], calls = [Add_token ''a.test''],
      syncs = [None, None]\<rparr>"
  by (simp add: first_shown_def onSubmit_success onChange_def initial_def advance_def)

lemma second_shown_eq:
  "snd (onSubmit sample_JSON_parse (Inr True) first_shown) =
     \<lparr>tokens = [], buttonDisabled = False, showNotification = True,
      isFailureNotification = False, notificationMessage = ''Added b.test to the token list'',
      fieldset_disabled = False, token_value = ''b.test'', window_accountId = None,
      clock = 5000, timers = [11000, 16000], alerts = [],
      calls = [Add_token ''a.test'', Add_token ''b.test''],
      syncs = [None, None, None]\<rparr>"
  by (simp add: first_shown_eq onSubmit_success)

text \<open>
  Claim C3, as stated, fails: \<open>a.test\<close> is added at time 0 and \<open>b.test\<close> at time 5000,
  while the first timer is pending. Both timers stay pending, and at time 11000 the
  first one hides the message about \<open>b.test\<close>, 6000 ms after it appeared.
\<close>

theorem stale_timer_counterexample:
  "showNotification first_shown = True \<and> timers first_shown = [11000] \<and> clock first_shown = 5000 \<and>
   showNotification (snd (onSubmit sample_JSON_parse (Inr True) first_shown)) = True \<and>
   notificationMessage (snd (onSubmit sample_JSON_parse (Inr True) first_shown)) =
     ''Added b.test to the token list'' \<and>
   timers (snd (onSubmit sample_JSON_parse (Inr True) first_shown)) = [11000, 16000] \<and>
   showNotification (advance 11000 (snd (onSubmit sample_JSON_parse (Inr True) first_shown))) = False \<and>
   notificationMessage (advance 11000 (snd (onSubmit sample_JSON_parse (Inr True) first_shown))) = []"
  by (simp add: second_shown_eq) (simp add: first_shown_eq advance_def clear_callback_def)

text \<open>The instance of the amended claim C3 in the same run.\<close>

theorem stale_timer_clears_newer_notification_witness:
  "11000 \<in> set (timers first_shown) \<and> (11000::nat) \<le> 11000 \<and>
   11000 \<in> set (timers (snd (onSubmit_settle sample_JSON_parse (Inr True) first_shown))) \<and>
   showNotification (advance 11000 (snd (onSubmit_settle sample_JSON_parse (Inr True) first_shown))) = False \<and>
   notificationMessage (advance 11000 (snd (onSubmit_settle sample_JSON_parse (Inr True) first_shown))) = []"
proof -
  have d: "11000 \<in> set (timers first_shown)" by (simp add: first_shown_eq)
  have t: "(11000::nat) \<le> 11000" by simp
  show ?thesis
    using stale_timer_clears_newer_notification[OF d t, of sample_JSON_parse "Inr True"] d by simp
qed

section \<open>A success shown under the failure flag\<close>

lemma failure_shown_eq:
  "failure_shown =
     \<lparr>tokens = [], buttonDisabled = False, showNotification = True,
      isFailureNotification = True,
      notificationMessage = ''The provided account ID does not contain a fungible token contract'',
      fieldset_disabled = False, token_value = ''usdc.test'', window_accountId = Some ''alice.test'',
      clock = 3000, timers = [11000], alerts = [], calls = [Add_token ''nope.test''],
      syncs = [Some ''alice.test'', Some ''alice.test'']\<rparr>"
proof -
  have c: "catch_block sample_JSON_parse (JsError not_a_token_message) s =
     (None,
      s\<lparr>notificationMessage := ''The provided account ID does not contain a fungible token contract'',
        isFailureNotification := True, showNotification := True,
        timers := timers s @ [clock s + 11000]\<rparr>)" for s
    using catch_block_not_a_token[of sample_JSON_parse "JsError not_a_token_message" not_a_token_json s]
    by (simp add: parse_not_a_token isNotTokenAccount_not_a_token)
  show ?thesis
    by (simp add: failure_shown_def onSubmit_def onSubmit_settle_def c onSubmit_call_def
        finally_block_def onChange_def initial_def advance_def)
qed

lemma onSubmit_settle_success_keeps_failure_flag:
  "isFailureNotification (snd (onSubmit_settle JSON_parse (Inr added) s)) = isFailureNotification s"
  by (simp add: onSubmit_settle_success)

text \<open>
  Claim C6 asks for \<open>isFailure = false\<close> on every successful submit. The success branch
  sets the message and the visibility and leaves \<open>isFailureNotification\<close> as it is:
  3000 ms after a refusal, with the failure notification still on display, a successful
  submit of \<open>usdc.test\<close> shows its message under the failure flag.
\<close>

theorem success_after_failure_shows_failure:
  "isFailureNotification (snd (onSubmit JSON_parse (Inr added) s)) = isFailureNotification s \<and>
   isFailureNotification failure_shown = True \<and>
   showNotification failure_shown = True \<and>
   fst (onSubmit sample_JSON_parse (Inr True) failure_shown) = None \<and>
   showNotification (snd (onSubmit sample_JSON_parse (Inr True) failure_shown)) = True \<and>
   notificationMessage (snd (onSubmit sample_JSON_parse (Inr True) failure_shown)) =
     ''Added usdc.test to the token list'' \<and>
   isFailureNotification (snd (onSubmit sample_JSON_parse (Inr True) failure_shown)) = True"
proof -
  have unchanged:
    "isFailureNotification (snd (onSubmit JSON_parse (Inr added) s)) = isFailureNotification s"
    by (simp add: onSubmit_success)
  have before: "isFailureNotification failure_shown = True \<and> showNotification failure_shown = True"
    by (simp add: failure_shown_eq)
  have after:
    "fst (onSubmit sample_JSON_parse (Inr True) failure_shown) = None \<and>
     showNotification (snd (onSubmit sample_JSON_parse (Inr True) failure_shown)) = True \<and>
     notificationMessage (snd (onSubmit sample_JSON_parse (Inr True) failure_shown)) =
       ''Added usdc.test to the token list'' \<and>
     isFailureNotification (snd (onSubmit sample_JSON_parse (Inr True) failure_shown)) = True"
    by (simp add: onSubmit_success failure_shown_eq)
  from unchanged before after show ?thesis by simp
qed


end
